theory Spec2Isabelle
  imports Main "HOL-Library.Word"
begin

section \<open>Text read from the worker\<close>

text \<open>
  The supervisor of \<^verbatim>\<open>vanna-mcp-server.js\<close> reads the worker's output as
  \<^verbatim>\<open>Buffer\<close> chunks and turns each chunk into a string with
  \<^verbatim>\<open>data.toString()\<close>. A chunk is a list of bytes; a string is the list of
  its code points. The string operations the source uses (\<^verbatim>\<open>split('\n')\<close>,
  \<^verbatim>\<open>trim\<close>, \<^verbatim>\<open>startsWith('{')\<close>, \<^verbatim>\<open>includes\<close>) only look at
  code points of the basic plane, so the UTF-16 representation of JavaScript strings is
  not needed.
\<close>

type_synonym byte = "8 word"
type_synonym jstring = "nat list"

definition text_of :: "string \<Rightarrow> jstring" where
  "text_of cs = map of_char cs"

definition bytes_of :: "string \<Rightarrow> byte list" where
  "bytes_of cs = map of_char cs"

text \<open>
  \<^verbatim>\<open>Buffer.prototype.toString()\<close> with its default encoding decodes UTF-8 and
  replaces every ill-formed or truncated sequence by U+FFFD. \<open>utf8 r cp lo hi\<close> is
  the decoder waiting for \<open>r\<close> more continuation bytes of the code point \<open>cp\<close>,
  the next of them between \<open>lo\<close> and \<open>hi\<close>; a byte that does not fit ends the
  sequence with U+FFFD and is decoded again as the start of a new one.
\<close>

function utf8 :: "nat \<Rightarrow> nat \<Rightarrow> nat \<Rightarrow> nat \<Rightarrow> byte list \<Rightarrow> jstring" where
  "utf8 0 cp lo hi [] = []"
| "utf8 (Suc r) cp lo hi [] = [0xFFFD]"
| "utf8 0 cp lo hi (b # bs) =
     (let n = unat b in
      if n \<le> 0x7F then n # utf8 0 0 0x80 0xBF bs
      else if 0xC2 \<le> n \<and> n \<le> 0xDF then utf8 1 (n mod 32) 0x80 0xBF bs
      else if 0xE0 \<le> n \<and> n \<le> 0xEF then
        utf8 2 (n mod 16) (if n = 0xE0 then 0xA0 else 0x80) (if n = 0xED then 0x9F else 0xBF) bs
      else if 0xF0 \<le> n \<and> n \<le> 0xF4 then
        utf8 3 (n mod 8) (if n = 0xF0 then 0x90 else 0x80) (if n = 0xF4 then 0x8F else 0xBF) bs
      else 0xFFFD # utf8 0 0 0x80 0xBF bs)"
| "utf8 (Suc r) cp lo hi (b # bs) =
     (let n = unat b in
      if lo \<le> n \<and> n \<le> hi then
        (if r = 0 then (cp * 64 + n mod 64) # utf8 0 0 0x80 0xBF bs
         else utf8 r (cp * 64 + n mod 64) 0x80 0xBF bs)
      else 0xFFFD # utf8 0 0 0x80 0xBF (b # bs))"
  by pat_completeness auto
termination
  by (relation "measure (\<lambda>(r, cp, lo, hi, bs). 2 * length bs + (if r = 0 then 0 else 1))") auto

definition toString :: "byte list \<Rightarrow> jstring" where
  "toString data = utf8 0 0 0x80 0xBF data"

text \<open>\<^verbatim>\<open>s.split('\n')\<close>: the pieces between line feeds; never an empty array.\<close>

fun split_nl :: "jstring \<Rightarrow> jstring list" where
  "split_nl [] = [[]]"
| "split_nl (c # cs) =
     (if c = 10 then [] # split_nl cs
      else (case split_nl cs of [] \<Rightarrow> [[c]] | l # ls \<Rightarrow> (c # l) # ls))"

text \<open>
  \<^verbatim>\<open>lines.pop()\<close> removes and returns the last element, \<^verbatim>\<open>undefined\<close> on an
  empty array.
\<close>

definition pop :: "'a list \<Rightarrow> 'a option \<times> 'a list" where
  "pop xs = (if xs = [] then (None, []) else (Some (last xs), butlast xs))"

text \<open>
  The first three statements of the \<^verbatim>\<open>stdout\<close> data handler:
  \<^verbatim>\<open>buffer += data.toString(); const lines = buffer.split('\n'); buffer = lines.pop() || ''\<close>.
  The result is the complete lines and the new buffer.
\<close>

definition frame :: "jstring \<Rightarrow> byte list \<Rightarrow> jstring list \<times> jstring" where
  "frame buffer data =
     (let (last_line, lines) = pop (split_nl (buffer @ toString data))
      in (lines, case last_line of None \<Rightarrow> [] | Some l \<Rightarrow> l))"

text \<open>The framer over a sequence of chunks: all lines produced, and the final buffer.\<close>

fun frames :: "jstring \<Rightarrow> byte list list \<Rightarrow> jstring list \<times> jstring" where
  "frames buffer [] = ([], buffer)"
| "frames buffer (d # ds) =
     (let (lines, buffer') = frame buffer d; (rest, final) = frames buffer' ds
      in (lines @ rest, final))"

text \<open>\<^verbatim>\<open>String.prototype.trim\<close> strips white space and line terminators.\<close>

definition js_space :: "nat \<Rightarrow> bool" where
  "js_space c \<longleftrightarrow>
     c \<in> {9, 10, 11, 12, 13, 32, 0xA0, 0x1680, 0x2028, 0x2029, 0x202F, 0x205F, 0x3000, 0xFEFF}
     \<or> (0x2000 \<le> c \<and> c \<le> 0x200A)"

definition trim :: "jstring \<Rightarrow> jstring" where
  "trim s = rev (dropWhile js_space (rev (dropWhile js_space s)))"

fun startsWith :: "jstring \<Rightarrow> jstring \<Rightarrow> bool" where
  "startsWith s [] = True"
| "startsWith [] (p # ps) = False"
| "startsWith (c # cs) (p # ps) = (c = p \<and> startsWith cs ps)"

fun str_includes :: "jstring \<Rightarrow> jstring \<Rightarrow> bool" where
  "str_includes [] p = (p = [])"
| "str_includes (c # cs) p = (startsWith (c # cs) p \<or> str_includes cs p)"

section \<open>The supervisor's state\<close>

text \<open>
  Timers armed with \<^verbatim>\<open>setTimeout\<close>: the initialization timer of the worker spawned
  as number \<open>pid\<close>, a pending \<^verbatim>\<open>setTimeout(() => this.startPython(), 5000)\<close>, and
  the timeout of \<^verbatim>\<open>sendToVanna\<close> for the request identifier \<open>i\<close> whose promise is
  \<open>p\<close>.
\<close>

datatype timer = InitTimer nat | Relaunch | RequestTimer nat nat

fun delay :: "timer \<Rightarrow> nat" where
  "delay (InitTimer pid) = 60000"
| "delay Relaunch = 5000"
| "delay (RequestTimer i p) = 30000"

text \<open>
  A parsed response line. \<open>rid\<close> is \<open>Some n\<close> when \<^verbatim>\<open>response.id\<close> is the
  non-negative integer \<open>n\<close> and \<open>None\<close> for any other value (absent, a string, a
  fraction, ...), which is never a key of the pending table, whose keys are the numbers
  handed out by \<^verbatim>\<open>requestId\<close>.
  \<open>rerror\<close> is \<open>None\<close> when \<^verbatim>\<open>response.error\<close> is falsy and otherwise holds the
  message of \<^verbatim>\<open>new Error(response.error.message)\<close>.
\<close>

record response =
  rid :: "nat option"
  rerror :: "string option"
  rresult :: string

datatype outcome = Resolved response | Rejected string

datatype tool = Query_totara_db string | Test_vanna_status | List_active_users int

record request =
  req_id :: nat
  req_tool :: tool

text \<open>
  The fields of \<^verbatim>\<open>VannaMCPServer\<close> that the supervision code reads and writes,
  followed by what the event loop and the outside world hold: the armed timers, the
  \<^verbatim>\<open>buffer\<close> variable of each spawned worker's closure, the number of workers
  spawned and of promises created so far, the calls of \<^verbatim>\<open>resolve\<close> and
  \<^verbatim>\<open>reject\<close> made so far (promise, outcome), the requests written to a worker's
  standard input, the workers sent \<^verbatim>\<open>SIGTERM\<close>, the identifiers handed out by
  \<^verbatim>\<open>this.requestId++\<close>, and whether \<^verbatim>\<open>process.exit\<close> was called.
  \<^verbatim>\<open>pendingRequests\<close> is a JavaScript \<^verbatim>\<open>Map\<close>, which iterates in insertion
  order: an association list. \<^verbatim>\<open>log\<close> and \<^verbatim>\<open>logError\<close> write the log file and
  the \<^verbatim>\<open>errorCounts\<close> tallies, which are only ever displayed; they are left out.
  \<^verbatim>\<open>requestId\<close> is a JavaScript number holding an integer; see \<open>next_id\<close> for
  its increment.
\<close>

record state =
  pythonProcess :: "nat option"
  isVannaReady :: bool
  initializationAttempts :: nat
  requestId :: nat
  pendingRequests :: "(nat \<times> nat) list"
  timers :: "timer list"
  buffers :: "nat \<Rightarrow> jstring"
  spawned :: nat
  promises :: nat
  settled :: "(nat \<times> outcome) list"
  written :: "(nat \<times> request) list"
  killed :: "nat list"
  issued :: "nat list"
  exited :: bool

definition maxAttempts :: nat where
  "maxAttempts = 3"

definition constructor_state :: state where
  "constructor_state =
     \<lparr>pythonProcess = None, isVannaReady = False, initializationAttempts = 0, requestId = 1,
      pendingRequests = [], timers = [], buffers = (\<lambda>pid. []), spawned = 0, promises = 0,
      settled = [], written = [], killed = [], issued = [], exited = False\<rparr>"

subsection \<open>The pending table\<close>

definition Map_has :: "(nat \<times> 'v) list \<Rightarrow> nat \<Rightarrow> bool" where
  "Map_has m k = (map_of m k \<noteq> None)"

definition Map_get :: "(nat \<times> 'v) list \<Rightarrow> nat \<Rightarrow> 'v option" where
  "Map_get m k = map_of m k"

fun Map_set :: "(nat \<times> 'v) list \<Rightarrow> nat \<Rightarrow> 'v \<Rightarrow> (nat \<times> 'v) list" where
  "Map_set [] k v = [(k, v)]"
| "Map_set ((k', v') # m) k v = (if k' = k then (k, v) # m else (k', v') # Map_set m k v)"

definition Map_delete :: "(nat \<times> 'v) list \<Rightarrow> nat \<Rightarrow> (nat \<times> 'v) list" where
  "Map_delete m k = filter (\<lambda>e. fst e \<noteq> k) m"

definition setTimeout :: "timer \<Rightarrow> state \<Rightarrow> state" where
  "setTimeout t s = s\<lparr>timers := timers s @ [t]\<rparr>"

definition clearTimeout :: "timer \<Rightarrow> state \<Rightarrow> state" where
  "clearTimeout t s = s\<lparr>timers := remove1 t (timers s)\<rparr>"

definition settle :: "nat \<Rightarrow> outcome \<Rightarrow> state \<Rightarrow> state" where
  "settle p out s = s\<lparr>settled := settled s @ [(p, out)]\<rparr>"

section \<open>Launching and stopping the worker\<close>

text \<open>
  \<^verbatim>\<open>startPython\<close>. \<open>files\<close> is what the two \<^verbatim>\<open>fs.existsSync\<close> tests find.
  The handlers the source attaches to the new process are the functions
  \<open>stderr_data\<close>, \<open>stdout_data\<close>, \<open>proc_error\<close> and \<open>proc_exit\<close> below, each
  taking the number of the process it was attached to.
\<close>

definition startPython :: "bool \<Rightarrow> state \<Rightarrow> state" where
  "startPython files s =
     (if initializationAttempts s \<ge> maxAttempts then s
      else
        let s1 = s\<lparr>initializationAttempts := initializationAttempts s + 1\<rparr> in
        if \<not> files then s1
        else
          let pid = spawned s1;
              s2 = s1\<lparr>pythonProcess := Some pid, spawned := pid + 1,
                      buffers := (buffers s1)(pid := [])\<rparr>
          in setTimeout (InitTimer pid) s2)"

text \<open>\<^verbatim>\<open>killPython\<close>; \<open>kill_throws\<close> says whether \<^verbatim>\<open>kill('SIGTERM')\<close> throws.\<close>

definition killPython :: "bool \<Rightarrow> state \<Rightarrow> state" where
  "killPython kill_throws s =
     (case pythonProcess s of
        None \<Rightarrow> s
      | Some proc \<Rightarrow>
          if kill_throws then s
          else s\<lparr>killed := killed s @ [proc], pythonProcess := None, isVannaReady := False\<rparr>)"

text \<open>The callback of \<^verbatim>\<open>initTimer\<close>.\<close>

definition init_timeout :: "bool \<Rightarrow> state \<Rightarrow> state" where
  "init_timeout kill_throws s = setTimeout Relaunch (killPython kill_throws s)"

text \<open>The \<^verbatim>\<open>stderr\<close> data handler of the worker \<open>pid\<close>.\<close>

definition stderr_data :: "nat \<Rightarrow> byte list \<Rightarrow> state \<Rightarrow> state" where
  "stderr_data pid data s =
     (let output = toString data in
      if str_includes output (text_of ''MCP_SERVER_READY'') \<or> str_includes output (text_of ''ready'')
      then (clearTimeout (InitTimer pid) s)\<lparr>isVannaReady := True, initializationAttempts := 0\<rparr>
      else s)"

section \<open>Responses\<close>

text \<open>The body of the \<^verbatim>\<open>try\<close> block after \<^verbatim>\<open>JSON.parse\<close> has returned.\<close>

definition handle_response :: "response \<Rightarrow> state \<Rightarrow> state" where
  "handle_response r s =
     (case rid r of
        None \<Rightarrow> s
      | Some i \<Rightarrow>
          if i \<noteq> 0 \<and> Map_has (pendingRequests s) i then
            (case Map_get (pendingRequests s) i of
               None \<Rightarrow> s
             | Some p \<Rightarrow>
                 settle p (case rerror r of Some m \<Rightarrow> Rejected m | None \<Rightarrow> Resolved r)
                   (s\<lparr>pendingRequests := Map_delete (pendingRequests s) i\<rparr>))
          else s)"

text \<open>
  The body of the loop over the lines. \<open>parse\<close> is \<^verbatim>\<open>JSON.parse\<close>, \<open>None\<close>
  where it throws; the \<^verbatim>\<open>catch\<close> block only logs.
\<close>

definition handle_line :: "(jstring \<Rightarrow> response option) \<Rightarrow> jstring \<Rightarrow> state \<Rightarrow> state" where
  "handle_line parse line s =
     (let trimmed = trim line in
      if trimmed \<noteq> [] \<and> startsWith trimmed (text_of ''{'') then
        (case parse trimmed of None \<Rightarrow> s | Some r \<Rightarrow> handle_response r s)
      else s)"

text \<open>The \<^verbatim>\<open>stdout\<close> data handler of the worker \<open>pid\<close>.\<close>

definition stdout_data ::
  "(jstring \<Rightarrow> response option) \<Rightarrow> nat \<Rightarrow> byte list \<Rightarrow> state \<Rightarrow> state" where
  "stdout_data parse pid data s =
     (let (lines, buffer') = frame (buffers s pid) data
      in fold (handle_line parse) lines (s\<lparr>buffers := (buffers s)(pid := buffer')\<rparr>))"

section \<open>Process errors and exits\<close>

definition proc_error :: "nat \<Rightarrow> state \<Rightarrow> state" where
  "proc_error pid s = setTimeout Relaunch ((clearTimeout (InitTimer pid) s)\<lparr>isVannaReady := False\<rparr>)"

text \<open>The loop over \<^verbatim>\<open>pendingRequests\<close> of the exit handler, and \<^verbatim>\<open>clear()\<close>.\<close>

definition purge :: "state \<Rightarrow> state" where
  "purge s =
     (fold (\<lambda>e. settle (snd e) (Rejected ''Python process exited'')) (pendingRequests s) s)
       \<lparr>pendingRequests := []\<rparr>"

text \<open>
  The exit handler of the worker \<open>pid\<close>. Node passes the exit code, or \<^verbatim>\<open>null\<close>
  when a signal ended the process, and the signal's name, or \<^verbatim>\<open>null\<close> when the
  process ended by itself.
\<close>

definition proc_exit :: "nat \<Rightarrow> int option \<Rightarrow> string option \<Rightarrow> state \<Rightarrow> state" where
  "proc_exit pid code signal s =
     (let s1 = purge ((clearTimeout (InitTimer pid) s)\<lparr>isVannaReady := False\<rparr>) in
      if signal \<noteq> Some ''SIGTERM'' \<and> code \<noteq> Some 0 \<and> initializationAttempts s1 < maxAttempts
      then setTimeout Relaunch s1 else s1)"

section \<open>Requests\<close>

text \<open>
  \<^verbatim>\<open>sendToVanna\<close>. The result is \<open>Inl\<close> the message of the error thrown before
  any promise is made, or \<open>Inr\<close> the promise returned. \<open>write_throws\<close> says whether
  \<^verbatim>\<open>stdin.write\<close> throws.
\<close>

definition sendToVanna :: "bool \<Rightarrow> request \<Rightarrow> state \<Rightarrow> (string + nat) \<times> state" where
  "sendToVanna write_throws request s =
     (case pythonProcess s of
        None \<Rightarrow> (Inl ''System initializing. Please wait and try again.'', s)
      | Some proc \<Rightarrow>
          if \<not> isVannaReady s then (Inl ''System initializing. Please wait and try again.'', s)
          else
            let p = promises s;
                i = req_id request;
                s1 = s\<lparr>promises := p + 1, pendingRequests := Map_set (pendingRequests s) i p\<rparr>;
                s2 = setTimeout (RequestTimer i p) s1
            in
              if write_throws then
                (Inr p,
                 settle p (Rejected ''Communication error. Please try again.'')
                   ((clearTimeout (RequestTimer i p) s2)
                      \<lparr>pendingRequests := Map_delete (pendingRequests s2) i\<rparr>))
              else (Inr p, s2\<lparr>written := written s2 @ [(proc, request)]\<rparr>))"

text \<open>The callback of the timeout armed by \<^verbatim>\<open>sendToVanna\<close>.\<close>

definition request_timeout :: "nat \<Rightarrow> nat \<Rightarrow> state \<Rightarrow> state" where
  "request_timeout i p s =
     (if Map_has (pendingRequests s) i then
        settle p (Rejected ''Request timeout. Try simpler question.'')
          (s\<lparr>pendingRequests := Map_delete (pendingRequests s) i\<rparr>)
      else s)"

text \<open>
  \<^verbatim>\<open>this.requestId++\<close>. A JavaScript number is a double: adding one is exact while
  the value is below \<open>2 ^ 53\<close>, and \<open>2 ^ 53 + 1\<close> rounds back to \<open>2 ^ 53\<close>, so the
  counter, which starts at \<open>1\<close>, stops there and hands out \<open>2 ^ 53\<close> again and again.
\<close>

definition id_limit :: nat where
  "id_limit = 2 ^ 53"

definition next_id :: "state \<Rightarrow> nat \<times> state" where
  "next_id s =
     (requestId s,
      s\<lparr>requestId := (if requestId s < id_limit then requestId s + 1 else requestId s),
        issued := issued s @ [requestId s]\<rparr>)"

text \<open>
  The three tools that reach the worker. Only their effect on the state is kept; the
  text they return is not. \<open>valid\<close> is the verdict of \<^verbatim>\<open>validateInput\<close> on the
  question.
\<close>

definition queryDatabase :: "bool \<Rightarrow> string \<Rightarrow> bool \<Rightarrow> state \<Rightarrow> state" where
  "queryDatabase valid question write_throws s =
     (if \<not> valid then s
      else if \<not> isVannaReady s then s
      else
        let (i, s1) = next_id s
        in snd (sendToVanna write_throws \<lparr>req_id = i, req_tool = Query_totara_db question\<rparr> s1))"

definition testStatus :: "bool \<Rightarrow> state \<Rightarrow> state" where
  "testStatus write_throws s =
     (if \<not> isVannaReady s then s
      else
        let (i, s1) = next_id s
        in snd (sendToVanna write_throws \<lparr>req_id = i, req_tool = Test_vanna_status\<rparr> s1))"

definition listUsers :: "int option \<Rightarrow> bool \<Rightarrow> state \<Rightarrow> state" where
  "listUsers limit write_throws s =
     (let lim = max 1 (min 50 (case limit of None \<Rightarrow> 10 | Some l \<Rightarrow> if l = 0 then 10 else l));
          (i, s1) = next_id s
      in snd (sendToVanna write_throws \<lparr>req_id = i, req_tool = List_active_users lim\<rparr> s1))"

text \<open>The handler of \<^verbatim>\<open>SIGINT\<close> and \<^verbatim>\<open>SIGTERM\<close> sent to the server itself.\<close>

definition host_signal :: "bool \<Rightarrow> state \<Rightarrow> state" where
  "host_signal kill_throws s = (killPython kill_throws s)\<lparr>exited := True\<rparr>"

section \<open>The event loop\<close>

text \<open>
  One event is one callback run to completion. A timer fires only while it is armed, and
  firing disarms it; a process event comes from a worker that was spawned; after
  \<^verbatim>\<open>process.exit\<close> nothing runs.
\<close>

datatype event =
    QueryDatabase bool string bool
  | TestStatus bool
  | ListUsers "int option" bool
  | StdoutData nat "byte list"
  | StderrData nat "byte list"
  | ProcError nat
  | ProcExit nat "int option" "string option"
  | FireInit nat bool
  | FireRelaunch bool
  | FireRequest nat nat
  | HostSignal bool

fun handler :: "(jstring \<Rightarrow> response option) \<Rightarrow> event \<Rightarrow> state \<Rightarrow> state" where
  "handler parse (QueryDatabase valid question w) s = queryDatabase valid question w s"
| "handler parse (TestStatus w) s = testStatus w s"
| "handler parse (ListUsers limit w) s = listUsers limit w s"
| "handler parse (StdoutData pid data) s = (if pid < spawned s then stdout_data parse pid data s else s)"
| "handler parse (StderrData pid data) s = (if pid < spawned s then stderr_data pid data s else s)"
| "handler parse (ProcError pid) s = (if pid < spawned s then proc_error pid s else s)"
| "handler parse (ProcExit pid code signal) s =
     (if pid < spawned s then proc_exit pid code signal s else s)"
| "handler parse (FireInit pid k) s =
     (if InitTimer pid \<in> set (timers s) then init_timeout k (clearTimeout (InitTimer pid) s) else s)"
| "handler parse (FireRelaunch files) s =
     (if Relaunch \<in> set (timers s) then startPython files (clearTimeout Relaunch s) else s)"
| "handler parse (FireRequest i p) s =
     (if RequestTimer i p \<in> set (timers s)
      then request_timeout i p (clearTimeout (RequestTimer i p) s) else s)"
| "handler parse (HostSignal k) s = host_signal k s"

definition step :: "(jstring \<Rightarrow> response option) \<Rightarrow> state \<Rightarrow> event \<Rightarrow> state" where
  "step parse s e = (if exited s then s else handler parse e s)"

text \<open>
  \<^verbatim>\<open>initializeVanna\<close>, called by the constructor: \<^verbatim>\<open>ensureFiles\<close> only copies
  files, then \<^verbatim>\<open>startPython\<close> runs.
\<close>

definition initializeVanna :: "bool \<Rightarrow> state \<Rightarrow> state" where
  "initializeVanna files s = startPython files s"

definition run :: "(jstring \<Rightarrow> response option) \<Rightarrow> bool \<Rightarrow> event list \<Rightarrow> state" where
  "run parse files es = foldl (step parse) (initializeVanna files constructor_state) es"

section \<open>Invariants of the pending table\<close>

text \<open>
  Identifiers: the counter is positive, the identifiers handed out so far are strictly
  increasing and below the counter, the pending table has one entry per key, and every key
  of the table and every identifier held by an armed request timer was handed out.
\<close>

definition fresh_ids :: "state \<Rightarrow> bool" where
  "fresh_ids s \<longleftrightarrow>
     0 < requestId s
     \<and> sorted_wrt (<) (issued s)
     \<and> (\<forall>i \<in> set (issued s). 0 < i \<and> i < requestId s)
     \<and> distinct (map fst (pendingRequests s))
     \<and> set (map fst (pendingRequests s)) \<subseteq> set (issued s)
     \<and> (\<forall>i p. RequestTimer i p \<in> set (timers s) \<longrightarrow> i \<in> set (issued s))"

text \<open>
  Settlement: no promise has been settled twice, no promise is in the table twice, a promise
  in the table has not been settled, every promise made is in the table or settled, every
  entry of the table has its timer armed, and an armed timer whose identifier is in the
  table holds the promise of that entry.
\<close>

definition single_settlement :: "state \<Rightarrow> bool" where
  "single_settlement s \<longleftrightarrow>
     distinct (map fst (settled s))
     \<and> distinct (map snd (pendingRequests s))
     \<and> set (map snd (pendingRequests s)) \<inter> set (map fst (settled s)) = {}
     \<and> set (map snd (pendingRequests s)) \<union> set (map fst (settled s)) = {..<promises s}
     \<and> (\<forall>e \<in> set (pendingRequests s). RequestTimer (fst e) (snd e) \<in> set (timers s))
     \<and> (\<forall>i p. RequestTimer i p \<in> set (timers s) \<longrightarrow>
           (\<forall>e \<in> set (pendingRequests s). fst e = i \<longrightarrow> snd e = p))"

definition inv :: "state \<Rightarrow> bool" where
  "inv s \<longleftrightarrow> fresh_ids s \<and> single_settlement s"

text \<open>An event that the \<^verbatim>\<open>stderr\<close> handler takes for the readiness signal.\<close>

definition announces_ready :: "event \<Rightarrow> bool" where
  "announces_ready e =
     (case e of
        StderrData pid data \<Rightarrow>
          str_includes (toString data) (text_of ''MCP_SERVER_READY'')
          \<or> str_includes (toString data) (text_of ''ready'')
      | _ \<Rightarrow> False)"

section \<open>Sample states\<close>

text \<open>
  States used in the examples below: the server after its constructor with worker \<open>0\<close>
  launched, the same after the worker has announced itself, and the same with one
  \<^verbatim>\<open>test_vanna_status\<close> request (identifier \<open>1\<close>, promise \<open>0\<close>) in flight.
\<close>

definition launching :: state where
  "launching = run Map.empty True []"

definition ready :: state where
  "ready = run Map.empty True [StderrData 0 (bytes_of ''ready'')]"

definition one_pending :: state where
  "one_pending = run Map.empty True [StderrData 0 (bytes_of ''ready''), TestStatus False]"

text \<open>Two crashes of the worker, each followed by its relaunch: the third launch.\<close>

definition three_launches :: "event list" where
  "three_launches =
     [ProcExit 0 (Some 1) None, FireRelaunch True, ProcExit 1 (Some 1) None, FireRelaunch True]"

text \<open>A request answered by the crash of the worker, and one sent to its successor.\<close>

definition across_restart :: "event list" where
  "across_restart =
     [StderrData 0 (bytes_of ''ready''), TestStatus False, ProcExit 0 (Some 1) None,
      FireRelaunch True, StderrData 1 (bytes_of ''ready''), ListUsers None False]"

definition ok_response :: response where
  "ok_response = \<lparr>rid = Some 1, rerror = None, rresult = ''ok''\<rparr>"





section \<open>Properties\<close>

lemmas run_defs = run_def step_def initializeVanna_def constructor_state_def startPython_def
  maxAttempts_def setTimeout_def clearTimeout_def settle_def

lemmas sample_defs = launching_def ready_def one_pending_def ok_response_def
  stderr_data_def toString_def bytes_of_def text_of_def testStatus_def next_id_def
  id_limit_def sendToVanna_def

lemma launching_eq:
  "launching = constructor_state\<lparr>initializationAttempts := 1, pythonProcess := Some 0,
     spawned := 1, timers := [InitTimer 0]\<rparr>"
  by (simp add: launching_def run_defs fun_eq_iff)

lemma ready_eq:
  "ready = constructor_state\<lparr>pythonProcess := Some 0, spawned := 1, isVannaReady := True\<rparr>"
  by (simp add: sample_defs run_defs fun_eq_iff)

lemma one_pending_eq:
  "one_pending = constructor_state\<lparr>pythonProcess := Some 0, spawned := 1, isVannaReady := True,
     requestId := 2, issued := [1], promises := 1, pendingRequests := [(1, 0)],
     timers := [RequestTimer 1 0],
     written := [(0, \<lparr>req_id = 1, req_tool = Test_vanna_status\<rparr>)]\<rparr>"
  by (simp add: sample_defs run_defs fun_eq_iff Let_def)

lemma fold_settle:
  "fold (\<lambda>e. settle (snd e) out) m s = s\<lparr>settled := settled s @ map (\<lambda>e. (snd e, out)) m\<rparr>"
  by (induction m arbitrary: s) (simp_all add: settle_def)

lemma purge_eq:
  "purge s =
     s\<lparr>settled := settled s @ map (\<lambda>e. (snd e, Rejected ''Python process exited'')) (pendingRequests s),
       pendingRequests := []\<rparr>"
  by (simp add: purge_def fold_settle)


subsection \<open>The invariants hold in every reachable state\<close>

lemma inv_frame:
  assumes "inv s" "issued s' = issued s" "requestId s' = requestId s"
    "pendingRequests s' = pendingRequests s" "settled s' = settled s" "promises s' = promises s"
    "\<And>i p. RequestTimer i p \<in> set (timers s') \<longleftrightarrow> RequestTimer i p \<in> set (timers s)"
  shows "inv s'"
  using assms unfolding inv_def fresh_ids_def single_settlement_def by simp

lemma inv_startPython: "inv s \<Longrightarrow> inv (startPython f s)"
  by (erule inv_frame) (auto simp: startPython_def setTimeout_def Let_def)

lemma inv_killPython: "inv s \<Longrightarrow> inv (killPython k s)"
  by (erule inv_frame) (auto simp: killPython_def split: option.splits)

lemma inv_clear_other:
  "inv s \<Longrightarrow> inv (clearTimeout (InitTimer pid) s)" "inv s \<Longrightarrow> inv (clearTimeout Relaunch s)"
  by (erule inv_frame; simp add: clearTimeout_def)+

lemma inv_set_other:
  "inv s \<Longrightarrow> inv (setTimeout (InitTimer pid) s)" "inv s \<Longrightarrow> inv (setTimeout Relaunch s)"
  by (erule inv_frame; simp add: setTimeout_def)+

lemma inv_flags:
  "inv s \<Longrightarrow> inv (s\<lparr>isVannaReady := b\<rparr>)" "inv s \<Longrightarrow> inv (s\<lparr>initializationAttempts := n\<rparr>)"
  "inv s \<Longrightarrow> inv (s\<lparr>exited := b\<rparr>)" "inv s \<Longrightarrow> inv (s\<lparr>buffers := bf\<rparr>)"
  by (erule inv_frame; simp)+

lemma Map_delete_set: "set (Map_delete m k) = {e \<in> set m. fst e \<noteq> k}"
  by (auto simp: Map_delete_def)

lemma Map_delete_vals:
  "distinct (map snd m) \<Longrightarrow> (k, v) \<in> set m \<Longrightarrow> distinct (map fst m) \<Longrightarrow>
   set (map snd (Map_delete m k)) = set (map snd m) - {v}"
  by (induction m) (auto simp: Map_delete_def image_iff)

lemma Map_delete_distinct:
  "distinct (map fst m) \<Longrightarrow> distinct (map fst (Map_delete m k))"
  "distinct (map snd m) \<Longrightarrow> distinct (map snd (Map_delete m k))"
  by (simp_all add: Map_delete_def distinct_map_filter)

lemma inv_remove:
  assumes "inv s" "(i, p) \<in> set (pendingRequests s)"
  shows "inv (settle p out (s\<lparr>pendingRequests := Map_delete (pendingRequests s) i\<rparr>))"
proof -
  let ?m = "pendingRequests s"
  from assms have d: "distinct (map fst ?m)" "distinct (map snd ?m)"
    by (simp_all add: inv_def fresh_ids_def single_settlement_def)
  have v: "set (map snd (Map_delete ?m i)) = set (map snd ?m) - {p}"
    using d assms(2) by (simp add: Map_delete_vals del: set_map)
  have pin: "p \<in> set (map snd ?m)" using assms(2) by force
  have f: "fresh_ids (settle p out (s\<lparr>pendingRequests := Map_delete ?m i\<rparr>))"
    using assms(1) unfolding inv_def fresh_ids_def
    by (auto simp: settle_def Map_delete_distinct Map_delete_set)
  have "single_settlement (settle p out (s\<lparr>pendingRequests := Map_delete ?m i\<rparr>))"
    using assms(1) pin unfolding inv_def single_settlement_def
    apply (simp add: settle_def Map_delete_distinct v del: set_map)
    apply (intro conjI)
    subgoal by (auto simp del: set_map)
    subgoal by (auto simp del: set_map)
    subgoal by (auto simp del: set_map)
    subgoal by (auto simp: Map_delete_set)
    subgoal by (auto simp: Map_delete_set)
    done
  with f show ?thesis by (simp add: inv_def)
qed

lemma in_remove1D: "t \<in> set (remove1 x xs) \<Longrightarrow> t \<in> set xs"
  by (meson notin_set_remove1)

lemma inv_clear_request:
  assumes "inv s" "i \<notin> fst ` set (pendingRequests s)"
  shows "inv (clearTimeout (RequestTimer i p) s)"
proof -
  have "fresh_ids (clearTimeout (RequestTimer i p) s)"
    using assms(1) unfolding inv_def fresh_ids_def
    by (simp add: clearTimeout_def) (blast dest: in_remove1D)
  moreover have "single_settlement (clearTimeout (RequestTimer i p) s)"
    using assms unfolding inv_def single_settlement_def
    apply (simp add: clearTimeout_def del: set_map)
    apply (intro conjI)
    subgoal
    proof clarify
      fix a b assume "(a, b) \<in> set (pendingRequests s)"
        and i: "i \<notin> fst ` set (pendingRequests s)"
        and t: "\<forall>e\<in>set (pendingRequests s). RequestTimer (fst e) (snd e) \<in> set (timers s)"
      then have "a \<noteq> i" and "RequestTimer a b \<in> set (timers s)" by force+
      then show "RequestTimer (fst (a, b)) (snd (a, b)) \<in> set (remove1 (RequestTimer i p) (timers s))"
        by simp
    qed
    subgoal by (meson in_remove1D)
    done
  ultimately show ?thesis by (simp add: inv_def)
qed

lemma inv_handle_response: "inv s \<Longrightarrow> inv (handle_response r s)"
  by (auto simp: handle_response_def Map_get_def split: option.splits
      dest!: map_of_SomeD intro: inv_remove)

lemma inv_handle_line: "inv s \<Longrightarrow> inv (handle_line parse l s)"
  by (simp add: handle_line_def Let_def inv_handle_response split: option.splits)

lemma inv_fold_lines: "inv s \<Longrightarrow> inv (fold (handle_line parse) ls s)"
  by (induction ls arbitrary: s) (simp_all add: inv_handle_line)

lemma inv_stdout_data: "inv s \<Longrightarrow> inv (stdout_data parse pid d s)"
  by (simp add: stdout_data_def split: prod.splits) (intro inv_fold_lines inv_flags allI impI)

lemma inv_request_timeout:
  assumes "inv s" "RequestTimer i p \<in> set (timers s)"
  shows "inv (request_timeout i p (clearTimeout (RequestTimer i p) s))"
proof (cases "Map_has (pendingRequests s) i")
  case False
  then have "i \<notin> fst ` set (pendingRequests s)"
    by (simp add: Map_has_def map_of_eq_None_iff)
  with assms(1) have "inv (clearTimeout (RequestTimer i p) s)" by (rule inv_clear_request)
  with False show ?thesis by (simp add: request_timeout_def clearTimeout_def)
next
  case True
  then obtain p' where e: "(i, p') \<in> set (pendingRequests s)"
    by (auto simp: Map_has_def dest: map_of_SomeD)
  with assms have "p' = p"
    unfolding inv_def single_settlement_def by fastforce
  with e have mem: "(i, p) \<in> set (pendingRequests s)" by simp
  let ?s1 = "settle p (Rejected ''Request timeout. Try simpler question.'')
               (s\<lparr>pendingRequests := Map_delete (pendingRequests s) i\<rparr>)"
  have i1: "inv ?s1" using assms(1) mem by (rule inv_remove)
  have "i \<notin> fst ` set (pendingRequests ?s1)"
    by (auto simp: settle_def Map_delete_set)
  with i1 have "inv (clearTimeout (RequestTimer i p) ?s1)" by (rule inv_clear_request)
  moreover have "request_timeout i p (clearTimeout (RequestTimer i p) s)
      = clearTimeout (RequestTimer i p) ?s1"
    using True by (simp add: request_timeout_def clearTimeout_def settle_def)
  ultimately show ?thesis by simp
qed

lemma inv_purge: "inv s \<Longrightarrow> inv (purge s)"
  unfolding inv_def fresh_ids_def single_settlement_def
  by (auto simp: purge_eq comp_def simp del: set_map)

lemma Map_set_fresh: "k \<notin> fst ` set m \<Longrightarrow> Map_set m k v = m @ [(k, v)]"
  by (induction m) auto

lemma next_id_below:
  "requestId s < id_limit \<Longrightarrow>
   next_id s = (requestId s, s\<lparr>requestId := requestId s + 1, issued := issued s @ [requestId s]\<rparr>)"
  by (simp add: next_id_def)

lemma inv_next_id: "inv s \<Longrightarrow> requestId s < id_limit \<Longrightarrow> inv (snd (next_id s))"
  unfolding inv_def fresh_ids_def single_settlement_def
  by (auto simp: next_id_below sorted_wrt_append less_SucI simp del: set_map)

lemma Map_delete_fresh: "k \<notin> fst ` set m \<Longrightarrow> Map_delete (m @ [(k, v)]) k = m"
  by (induction m) (auto simp: Map_delete_def)

lemma inv_submit:
  assumes "inv s" and below: "requestId s < id_limit"
  shows "inv (snd (sendToVanna w \<lparr>req_id = requestId s, req_tool = t\<rparr> (snd (next_id s))))"
proof (cases "pythonProcess s = None \<or> \<not> isVannaReady s")
  case True
  then have "sendToVanna w \<lparr>req_id = requestId s, req_tool = t\<rparr> (snd (next_id s))
      = (Inl ''System initializing. Please wait and try again.'', snd (next_id s))"
    by (auto simp: sendToVanna_def next_id_def split: option.splits)
  with assms show ?thesis by (simp add: inv_next_id)
next
  case False
  then obtain proc where proc: "pythonProcess s = Some proc" and rdy: "isVannaReady s" by auto
  let ?i = "requestId s" and ?p = "promises s"
  from assms have fr: "fresh_ids s" and ss: "single_settlement s" by (simp_all add: inv_def)
  from fr have ni: "?i \<notin> set (issued s)" unfolding fresh_ids_def by auto
  with fr have nk: "?i \<notin> fst ` set (pendingRequests s)"
    and nt: "\<And>q. RequestTimer ?i q \<notin> set (timers s)"
    unfolding fresh_ids_def by auto
  from ss have np: "?p \<notin> set (map snd (pendingRequests s))" "?p \<notin> set (map fst (settled s))"
    unfolding single_settlement_def by (metis UnI1 lessThan_iff less_irrefl, metis UnI2 lessThan_iff less_irrefl)
  have un: "set (map snd (pendingRequests s)) \<union> set (map fst (settled s)) = {..<?p}"
    using ss unfolding single_settlement_def by simp
  show ?thesis
  proof (cases w)
    case False
    have eq: "snd (sendToVanna w \<lparr>req_id = ?i, req_tool = t\<rparr> (snd (next_id s)))
      = s\<lparr>requestId := ?i + 1, issued := issued s @ [?i], promises := ?p + 1,
           pendingRequests := pendingRequests s @ [(?i, ?p)],
           timers := timers s @ [RequestTimer ?i ?p],
           written := written s @ [(proc, \<lparr>req_id = ?i, req_tool = t\<rparr>)]\<rparr>"
      using False proc rdy nk below
      by (simp add: sendToVanna_def next_id_below Let_def setTimeout_def Map_set_fresh)
    have "fresh_ids (snd (sendToVanna w \<lparr>req_id = ?i, req_tool = t\<rparr> (snd (next_id s))))"
      unfolding eq using fr nk unfolding fresh_ids_def
      by (auto simp: sorted_wrt_append less_SucI)
    moreover have "single_settlement (snd (sendToVanna w \<lparr>req_id = ?i, req_tool = t\<rparr> (snd (next_id s))))"
      unfolding eq using ss nk nt np un unfolding single_settlement_def
      apply (simp del: set_map)
      apply (auto simp del: set_map simp: lessThan_Suc image_iff)
      done
    ultimately show ?thesis by (simp add: inv_def)
  next
    case True
    have eq: "snd (sendToVanna w \<lparr>req_id = ?i, req_tool = t\<rparr> (snd (next_id s)))
      = s\<lparr>requestId := ?i + 1, issued := issued s @ [?i], promises := ?p + 1,
           settled := settled s @ [(?p, Rejected ''Communication error. Please try again.'')]\<rparr>"
      using True proc rdy nk nt below
      by (simp add: sendToVanna_def next_id_below Let_def setTimeout_def clearTimeout_def
          settle_def Map_set_fresh Map_delete_fresh remove1_append)
    have "fresh_ids (snd (sendToVanna w \<lparr>req_id = ?i, req_tool = t\<rparr> (snd (next_id s))))"
      unfolding eq using fr unfolding fresh_ids_def
      by (auto simp: sorted_wrt_append less_SucI)
    moreover have "single_settlement (snd (sendToVanna w \<lparr>req_id = ?i, req_tool = t\<rparr> (snd (next_id s))))"
      unfolding eq using ss np un unfolding single_settlement_def
      apply (simp del: set_map)
      apply (auto simp del: set_map simp: lessThan_Suc)
      done
    ultimately show ?thesis by (simp add: inv_def)
  qed
qed

lemma handle_line_frame:
  "handle_line parse l s =
     s\<lparr>pendingRequests := pendingRequests (handle_line parse l s),
       settled := settled (handle_line parse l s)\<rparr>"
  by (simp add: handle_line_def handle_response_def settle_def Let_def split: option.splits)

lemma fold_lines_frame:
  "fold (handle_line parse) ls s =
     s\<lparr>pendingRequests := pendingRequests (fold (handle_line parse) ls s),
       settled := settled (fold (handle_line parse) ls s)\<rparr>"
proof (induction ls arbitrary: s)
  case Nil
  show ?case by simp
next
  case (Cons l ls)
  let ?t = "handle_line parse l s"
  have "fold (handle_line parse) (l # ls) s = fold (handle_line parse) ls ?t" by simp
  also have "\<dots> = ?t\<lparr>pendingRequests := pendingRequests (fold (handle_line parse) ls ?t),
       settled := settled (fold (handle_line parse) ls ?t)\<rparr>"
    by (rule Cons.IH)
  also have "\<dots> = s\<lparr>pendingRequests := pendingRequests (fold (handle_line parse) ls ?t),
       settled := settled (fold (handle_line parse) ls ?t)\<rparr>"
    by (subst handle_line_frame) simp
  finally show ?case by simp
qed

lemma stdout_data_frame:
  "stdout_data parse pid d s =
     s\<lparr>buffers := (buffers s)(pid := snd (frame (buffers s pid) d)),
       pendingRequests := pendingRequests (stdout_data parse pid d s),
       settled := settled (stdout_data parse pid d s)\<rparr>"
  unfolding stdout_data_def split_def Let_def
  by (subst fold_lines_frame) simp

lemma handler_ids:
  "issued (handler parse e s) = issued s \<and> requestId (handler parse e s) = requestId s
   \<or> issued (handler parse e s) = issued s @ [requestId s]
      \<and> requestId (handler parse e s)
          = (if requestId s < id_limit then requestId s + 1 else requestId s)"
proof (cases e)
  case (StdoutData pid d)
  have "issued (stdout_data parse pid d s) = issued s
    \<and> requestId (stdout_data parse pid d s) = requestId s"
    by (subst (1 2) stdout_data_frame) simp
  with StdoutData show ?thesis by simp
qed (auto simp: queryDatabase_def testStatus_def listUsers_def split_def Let_def
      sendToVanna_def next_id_def
      stderr_data_def proc_error_def proc_exit_def purge_eq
      init_timeout_def killPython_def host_signal_def startPython_def request_timeout_def
      setTimeout_def clearTimeout_def settle_def split: option.splits)

lemma step_ids:
  "issued (step parse s e) = issued s \<and> requestId (step parse s e) = requestId s
   \<or> issued (step parse s e) = issued s @ [requestId s]
      \<and> requestId (step parse s e)
          = (if requestId s < id_limit then requestId s + 1 else requestId s)"
proof (cases "exited s")
  case True
  then show ?thesis by (simp add: step_def)
next
  case False
  then have "step parse s e = handler parse e s" by (simp add: step_def)
  then show ?thesis using handler_ids [of parse e s] by simp
qed

lemma requestId_mono: "requestId s \<le> requestId (step parse s e)"
  using step_ids [of parse s e] by auto

lemma requestId_step_le: "requestId (step parse s e) \<le> requestId s + 1"
  using step_ids [of parse s e] by auto

lemma inv_tools:
  assumes "inv s" and "requestId s < id_limit"
  shows "inv (queryDatabase v q w s)" and "inv (testStatus w s)" and "inv (listUsers l w s)"
  using assms inv_submit [of s w]
  by (simp_all add: queryDatabase_def testStatus_def listUsers_def split_def Let_def)
     (simp_all add: next_id_def)

lemma inv_handler:
  assumes "inv s" and "requestId s < id_limit"
  shows "inv (handler parse e s)"
proof (cases e)
  case (ProcExit pid code signal)
  from assms(1) have "inv (purge ((clearTimeout (InitTimer pid) s)\<lparr>isVannaReady := False\<rparr>))"
    by (intro inv_purge inv_flags inv_clear_other)
  then show ?thesis
    using assms(1) ProcExit by (simp add: proc_exit_def Let_def inv_set_other)
qed (use assms in \<open>simp_all add: inv_tools inv_stdout_data stderr_data_def Let_def proc_error_def
      init_timeout_def host_signal_def inv_flags inv_clear_other inv_set_other inv_killPython
      inv_startPython inv_request_timeout\<close>)

lemma inv_step: "inv s \<Longrightarrow> requestId s < id_limit \<Longrightarrow> inv (step parse s e)"
  by (simp add: step_def inv_handler)

lemma inv_constructor: "inv constructor_state"
  by (simp add: inv_def fresh_ids_def single_settlement_def constructor_state_def)

lemma run_snoc: "run parse files (es @ [e]) = step parse (run parse files es) e"
  by (simp add: run_def)

text \<open>
  The invariants hold as long as the counter has not reached its limit: it never
  decreases, so it was below the limit in every earlier state too.
\<close>

lemma inv_run: "requestId (run parse files es) < id_limit \<Longrightarrow> inv (run parse files es)"
proof (induction es rule: rev_induct)
  case Nil
  show ?case by (simp add: run_def initializeVanna_def inv_startPython inv_constructor)
next
  case (snoc e es)
  have "requestId (run parse files es) \<le> requestId (run parse files (es @ [e]))"
    by (simp add: run_snoc requestId_mono)
  with snoc.prems have b: "requestId (run parse files es) < id_limit" by simp
  then have "inv (run parse files es)" by (rule snoc.IH)
  then show ?case using b by (simp add: run_snoc inv_step)
qed

lemma requestId_run_le: "requestId (run parse files es) \<le> length es + 1"
proof (induction es rule: rev_induct)
  case Nil
  show ?case by (simp add: run_def initializeVanna_def startPython_def constructor_state_def
      setTimeout_def Let_def)
next
  case (snoc e es)
  have "requestId (run parse files (es @ [e])) \<le> requestId (run parse files es) + 1"
    unfolding run_snoc by (rule requestId_step_le)
  with snoc.IH show ?case by simp
qed

subsection \<open>Requests while the worker is not ready\<close>

text \<open>
  Claim C3. While there is no worker process or the readiness flag is false,
  \<^verbatim>\<open>sendToVanna\<close> fails at once with the "System initializing" error and leaves the
  whole state as it was: no entry is added to the pending table and nothing is written to
  the worker. The same holds for the three tools that call it, whether they test the flag
  themselves (\<^verbatim>\<open>queryDatabase\<close>, \<^verbatim>\<open>testStatus\<close>) or not (\<^verbatim>\<open>listUsers\<close>).
\<close>

theorem submit_while_not_ready:
  assumes "pythonProcess s = None \<or> \<not> isVannaReady s"
  shows "sendToVanna w rq s = (Inl ''System initializing. Please wait and try again.'', s)
    \<and> pendingRequests (queryDatabase v q w s) = pendingRequests s
    \<and> written (queryDatabase v q w s) = written s
    \<and> pendingRequests (testStatus w s) = pendingRequests s
    \<and> written (testStatus w s) = written s
    \<and> pendingRequests (listUsers l w s) = pendingRequests s
    \<and> written (listUsers l w s) = written s"
  using assms
  by (auto simp: queryDatabase_def testStatus_def listUsers_def next_id_def sendToVanna_def
      Let_def split: option.splits)

theorem submit_while_not_ready_witness:
  "pythonProcess launching = Some 0 \<and> isVannaReady launching = False
   \<and> sendToVanna False \<lparr>req_id = 1, req_tool = Test_vanna_status\<rparr> launching
       = (Inl ''System initializing. Please wait and try again.'', launching)
   \<and> pendingRequests (listUsers None False launching) = []
   \<and> written (listUsers None False launching) = []"
  using submit_while_not_ready
    [of launching False "\<lparr>req_id = 1, req_tool = Test_vanna_status\<rparr>" True "''q''" None]
  by (simp add: launching_eq constructor_state_def)

subsection \<open>The readiness signal\<close>

text \<open>
  Claim C10. Whenever the decoded text of a chunk on the worker's diagnostic stream
  contains \<^verbatim>\<open>MCP_SERVER_READY\<close> or \<^verbatim>\<open>ready\<close> anywhere, the handler cancels
  that worker's initialization timer, sets the readiness flag, and resets the attempt
  counter to zero; with a worker process present, \<^verbatim>\<open>sendToVanna\<close> then accepts
  requests. The text need not be a marker line: "already running" does it.
\<close>

theorem stderr_ready:
  assumes "str_includes (toString data) (text_of ''MCP_SERVER_READY'')
           \<or> str_includes (toString data) (text_of ''ready'')"
  shows "isVannaReady (stderr_data pid data s)
    \<and> initializationAttempts (stderr_data pid data s) = 0
    \<and> timers (stderr_data pid data s) = remove1 (InitTimer pid) (timers s)
    \<and> (pythonProcess s \<noteq> None \<longrightarrow> \<not> isl (fst (sendToVanna w rq (stderr_data pid data s))))"
  using assms
  by (auto simp: stderr_data_def clearTimeout_def sendToVanna_def Let_def split: option.splits)

theorem stderr_ready_witness:
  "str_includes (toString (bytes_of ''already running'')) (text_of ''ready'')
   \<and> pythonProcess launching = Some 0
   \<and> timers launching = [InitTimer 0]
   \<and> initializationAttempts launching = 1
   \<and> isVannaReady (stderr_data 0 (bytes_of ''already running'') launching)
   \<and> initializationAttempts (stderr_data 0 (bytes_of ''already running'') launching) = 0
   \<and> timers (stderr_data 0 (bytes_of ''already running'') launching) = []
   \<and> \<not> isl (fst (sendToVanna False \<lparr>req_id = 1, req_tool = Test_vanna_status\<rparr>
        (stderr_data 0 (bytes_of ''already running'') launching)))"
proof -
  have h: "str_includes (toString (bytes_of ''already running'')) (text_of ''ready'')"
    by (simp add: toString_def bytes_of_def text_of_def)
  have b: "pythonProcess launching = Some 0 \<and> timers launching = [InitTimer 0]
     \<and> initializationAttempts launching = 1"
    by (simp add: launching_eq constructor_state_def)
  show ?thesis
    using h b stderr_ready [of "bytes_of ''already running''" 0 launching
        False "\<lparr>req_id = 1, req_tool = Test_vanna_status\<rparr>"]
    by simp
qed

subsection \<open>A response that matches a pending request\<close>




subsection \<open>Process errors\<close>

text \<open>
  Claim C7 does not hold of the code: the \<^verbatim>\<open>error\<close> handler cancels the
  initialization timer, clears the readiness flag and arms a relaunch, but, unlike the
  \<^verbatim>\<open>exit\<close> handler beside it, it does not touch the pending table. In
  \<open>one_pending\<close> a process error leaves request \<open>1\<close> pending and unsettled.
\<close>

theorem proc_error_keeps_pending:
  "pendingRequests one_pending = [(1, 0)]
   \<and> pendingRequests (step Map.empty one_pending (ProcError 0)) = [(1, 0)]
   \<and> settled (step Map.empty one_pending (ProcError 0)) = []
   \<and> isVannaReady (step Map.empty one_pending (ProcError 0)) = False
   \<and> timers (step Map.empty one_pending (ProcError 0)) = [RequestTimer 1 0, Relaunch]"
  by (simp add: one_pending_eq constructor_state_def step_def proc_error_def setTimeout_def
      clearTimeout_def)

lemma proc_error_pending:
  "pendingRequests (proc_error pid s) = pendingRequests s \<and> settled (proc_error pid s) = settled s"
  by (simp add: proc_error_def setTimeout_def clearTimeout_def)

subsection \<open>Worker exit\<close>

text \<open>
  Claim C4. When the worker exits with a non-zero code (Node then passes no signal, so the
  signal is not \<^verbatim>\<open>SIGTERM\<close>) and the attempt counter is below the maximum, the exit
  handler rejects every pending request, in the table's order, with "Python process
  exited", empties the table, and arms a relaunch timer of 5000 ms after cancelling the
  initialization timer; the counter is unchanged by the handler and is one higher after
  that timer's \<^verbatim>\<open>startPython\<close> has run.
\<close>

theorem proc_exit_nonzero:
  assumes "code = Some c" and "c \<noteq> 0" and "signal \<noteq> Some ''SIGTERM''"
    and "initializationAttempts s < maxAttempts"
  shows "pendingRequests (proc_exit pid code signal s) = []
    \<and> settled (proc_exit pid code signal s) =
        settled s @ map (\<lambda>e. (snd e, Rejected ''Python process exited'')) (pendingRequests s)
    \<and> timers (proc_exit pid code signal s) = remove1 (InitTimer pid) (timers s) @ [Relaunch]
    \<and> delay Relaunch = 5000
    \<and> initializationAttempts (proc_exit pid code signal s) = initializationAttempts s
    \<and> initializationAttempts (handler parse (FireRelaunch files) (proc_exit pid code signal s))
        = initializationAttempts s + 1"
  using assms
  by (simp add: proc_exit_def purge_eq setTimeout_def clearTimeout_def startPython_def Let_def)

theorem proc_exit_nonzero_witness:
  "initializationAttempts one_pending = 0 \<and> pendingRequests one_pending = [(1, 0)]
   \<and> pendingRequests (proc_exit 0 (Some 1) None one_pending) = []
   \<and> settled (proc_exit 0 (Some 1) None one_pending) = [(0, Rejected ''Python process exited'')]
   \<and> timers (proc_exit 0 (Some 1) None one_pending) = [RequestTimer 1 0, Relaunch]
   \<and> initializationAttempts
        (handler Map.empty (FireRelaunch True) (proc_exit 0 (Some 1) None one_pending)) = 1"
proof -
  have h: "initializationAttempts one_pending = 0 \<and> pendingRequests one_pending = [(1, 0)]
      \<and> settled one_pending = [] \<and> timers one_pending = [RequestTimer 1 0]"
    by (simp add: one_pending_eq constructor_state_def)
  show ?thesis
    using h proc_exit_nonzero [of "Some 1" 1 None one_pending 0 Map.empty True]
    by (auto simp: maxAttempts_def)
qed

subsection \<open>Deliberate shutdown\<close>



subsection \<open>Single settlement\<close>


















subsection \<open>Request identifiers\<close>

text \<open>
  At the limit the counter stays where it is: two calls in a row hand out the same
  identifier. The counter grows by at most one per event, so a run reaches the limit only
  after \<open>2 ^ 53 - 1\<close> tool calls.
\<close>

lemma next_id_at_limit:
  "requestId s = id_limit \<Longrightarrow> fst (next_id (snd (next_id s))) = fst (next_id s)"
  by (simp add: next_id_def)

text \<open>
  Claim C2. In every reachable state \<open>R\<close> whose counter is below the limit \<open>2 ^ 53\<close>,
  the identifiers handed out so far are strictly increasing, so no two are equal; the
  next identifier was never handed out and is not a key of the pending table, so
  registering it overwrites nothing; and the table has one entry per key, each key a
  handed-out identifier. No event, and so no exit, purge or relaunch of the worker,
  changes the counter except a tool call, which hands out the counter's value and adds
  one to it. The counter is at most one more than the number of events so far, so every
  run of fewer than \<open>2 ^ 53 - 1\<close> events is below the limit.
\<close>

theorem identifiers_never_reused:
  assumes "R = run parse files es" and "requestId R < id_limit"
  shows "sorted_wrt (<) (issued R)
   \<and> requestId R \<notin> set (issued R)
   \<and> distinct (map fst (pendingRequests R))
   \<and> set (map fst (pendingRequests R)) \<subseteq> set (issued R)
   \<and> requestId R \<notin> set (map fst (pendingRequests R))
   \<and> (issued (step parse R e) = issued R \<and> requestId (step parse R e) = requestId R
      \<or> issued (step parse R e) = issued R @ [requestId R]
         \<and> requestId (step parse R e) = requestId R + 1)
   \<and> requestId R \<le> length es + 1"
proof -
  have "inv R" using assms inv_run by simp
  then have "fresh_ids R" by (simp add: inv_def)
  then have "sorted_wrt (<) (issued R)"
    and "distinct (map fst (pendingRequests R))"
    and sub: "set (map fst (pendingRequests R)) \<subseteq> set (issued R)"
    and lt: "\<forall>i \<in> set (issued R). 0 < i \<and> i < requestId R"
    by (simp_all add: fresh_ids_def)
  moreover from lt have n: "requestId R \<notin> set (issued R)"
    by blast
  moreover from n sub have "requestId R \<notin> set (map fst (pendingRequests R))"
    by blast
  moreover have "issued (step parse R e) = issued R \<and> requestId (step parse R e) = requestId R
      \<or> issued (step parse R e) = issued R @ [requestId R]
         \<and> requestId (step parse R e) = requestId R + 1"
    using step_ids [of parse R e] assms(2) by simp
  moreover have "requestId R \<le> length es + 1"
    unfolding assms(1) by (rule requestId_run_le)
  ultimately show ?thesis by (intro conjI)
qed

lemma across_restart_eq:
  "run Map.empty True across_restart = constructor_state\<lparr>initializationAttempts := 0,
     pythonProcess := Some 1, isVannaReady := True, spawned := 2, requestId := 3,
     issued := [1, 2], promises := 2, pendingRequests := [(2, 1)],
     settled := [(0, Rejected ''Python process exited'')],
     timers := [RequestTimer 1 0, RequestTimer 2 1],
     written := [(0, \<lparr>req_id = 1, req_tool = Test_vanna_status\<rparr>),
                 (1, \<lparr>req_id = 2, req_tool = List_active_users 10\<rparr>)]\<rparr>"
  by (simp add: across_restart_def sample_defs run_defs proc_exit_def purge_eq Let_def
      listUsers_def fun_eq_iff)

theorem identifiers_never_reused_witness:
  "issued (run Map.empty True across_restart) = [1, 2]
   \<and> pendingRequests (run Map.empty True across_restart) = [(2, 1)]
   \<and> RequestTimer 1 0 \<in> set (timers (run Map.empty True across_restart))
   \<and> requestId (run Map.empty True across_restart) = 3
   \<and> spawned (run Map.empty True across_restart) = 2
   \<and> sorted_wrt (<) (issued (run Map.empty True across_restart))
   \<and> requestId (run Map.empty True across_restart)
        \<notin> set (map fst (pendingRequests (run Map.empty True across_restart)))
   \<and> issued (step Map.empty (run Map.empty True across_restart) (TestStatus False)) = [1, 2, 3]
   \<and> requestId (step Map.empty (run Map.empty True across_restart) (TestStatus False)) = 4"
proof -
  have h: "issued (run Map.empty True across_restart) = [1, 2]
     \<and> pendingRequests (run Map.empty True across_restart) = [(2, 1)]
     \<and> RequestTimer 1 0 \<in> set (timers (run Map.empty True across_restart))
     \<and> requestId (run Map.empty True across_restart) = 3
     \<and> spawned (run Map.empty True across_restart) = 2
     \<and> issued (step Map.empty (run Map.empty True across_restart) (TestStatus False)) \<noteq> [1, 2]
     \<and> (3::nat) < id_limit"
    by (simp add: across_restart_eq constructor_state_def step_def testStatus_def next_id_def
        sendToVanna_def Let_def setTimeout_def id_limit_def)
  show ?thesis
    using h identifiers_never_reused [OF refl, of Map.empty True across_restart "TestStatus False"]
    by auto
qed

subsection \<open>The attempt counter\<close>

text \<open>
  Claim C5, as stated, fails. After two crashes and relaunches the counter is at the
  maximum \<open>3\<close> with the third worker running. A process error then arms a relaunch
  timer, although its \<^verbatim>\<open>startPython\<close> will stop at the gate. And when the third
  worker announces itself the counter goes back to \<open>0\<close>, so that its later crash arms a
  relaunch that launches a fourth worker.
\<close>

theorem relaunch_after_maximum:
  "initializationAttempts (run Map.empty True three_launches) = maxAttempts
   \<and> spawned (run Map.empty True three_launches) = 3
   \<and> Relaunch \<in> set (timers (run Map.empty True (three_launches @ [ProcError 2])))
   \<and> Relaunch \<in> set (timers (run Map.empty True
        (three_launches @ [StderrData 2 (bytes_of ''ready''), ProcExit 2 (Some 1) None])))
   \<and> spawned (run Map.empty True
        (three_launches @ [StderrData 2 (bytes_of ''ready''), ProcExit 2 (Some 1) None,
           FireRelaunch True])) = 4"
  by (simp add: three_launches_def run_defs proc_exit_def purge_eq Let_def proc_error_def
      stderr_data_def toString_def bytes_of_def text_of_def)

lemma tool_fields:
  "spawned (snd (sendToVanna w rq (snd (next_id s)))) = spawned s
   \<and> initializationAttempts (snd (sendToVanna w rq (snd (next_id s)))) = initializationAttempts s"
  by (simp add: sendToVanna_def next_id_def Let_def setTimeout_def clearTimeout_def settle_def
      split: option.splits)

lemma handler_launch:
  "(spawned (handler parse e s) = spawned s
      \<and> (initializationAttempts (handler parse e s) = initializationAttempts s
          \<or> initializationAttempts s < maxAttempts
             \<and> initializationAttempts (handler parse e s) = initializationAttempts s + 1
          \<or> announces_ready e \<and> initializationAttempts (handler parse e s) = 0
             \<and> isVannaReady (handler parse e s)))
   \<or> (initializationAttempts s < maxAttempts \<and> spawned (handler parse e s) = spawned s + 1
      \<and> initializationAttempts (handler parse e s) = initializationAttempts s + 1)"
proof (cases e)
  case (StdoutData pid d)
  have "spawned (stdout_data parse pid d s) = spawned s
    \<and> initializationAttempts (stdout_data parse pid d s) = initializationAttempts s"
    by (subst (1 2) stdout_data_frame) simp
  with StdoutData show ?thesis by simp
qed (auto simp: queryDatabase_def testStatus_def listUsers_def split_def Let_def tool_fields
      stderr_data_def announces_ready_def proc_error_def proc_exit_def purge_eq
      init_timeout_def killPython_def host_signal_def startPython_def request_timeout_def
      setTimeout_def clearTimeout_def settle_def split: option.splits)

lemma step_launch:
  "(spawned (step parse s e) = spawned s
      \<and> (initializationAttempts (step parse s e) = initializationAttempts s
          \<or> initializationAttempts s < maxAttempts
             \<and> initializationAttempts (step parse s e) = initializationAttempts s + 1
          \<or> announces_ready e \<and> initializationAttempts (step parse s e) = 0
             \<and> isVannaReady (step parse s e)))
   \<or> (initializationAttempts s < maxAttempts \<and> spawned (step parse s e) = spawned s + 1
      \<and> initializationAttempts (step parse s e) = initializationAttempts s + 1)"
  using handler_launch [of parse e s] by (simp add: step_def)

lemma no_launch_at_maximum:
  "maxAttempts \<le> initializationAttempts s \<Longrightarrow> \<forall>e \<in> set es. \<not> announces_ready e \<Longrightarrow>
   spawned (foldl (step parse) s es) = spawned s
   \<and> initializationAttempts (foldl (step parse) s es) = initializationAttempts s"
proof (induction es arbitrary: s)
  case Nil
  show ?case by simp
next
  case (Cons e es)
  from Cons.prems step_launch [of parse s e]
  have st: "spawned (step parse s e) = spawned s
    \<and> initializationAttempts (step parse s e) = initializationAttempts s"
    by auto
  with Cons.prems have "maxAttempts \<le> initializationAttempts (step parse s e)" by simp
  moreover from Cons.prems have "\<forall>e \<in> set es. \<not> announces_ready e" by simp
  ultimately have "spawned (foldl (step parse) (step parse s e) es) = spawned (step parse s e)
   \<and> initializationAttempts (foldl (step parse) (step parse s e) es)
       = initializationAttempts (step parse s e)"
    by (rule Cons.IH)
  with st show ?case by simp
qed

text \<open>
  Claim C5, amended. Every launch of a worker adds one to the attempt counter, and the
  counter decreases only when the readiness signal sets it to zero. While the counter is
  at the maximum, \<^verbatim>\<open>startPython\<close> does nothing and the exit handler arms no
  relaunch, so that over any sequence of events without a readiness signal no worker is
  launched and the counter stays where it is.
\<close>

theorem attempts_gate:
  "(spawned (step parse s e) = spawned s
      \<or> spawned (step parse s e) = spawned s + 1
         \<and> initializationAttempts (step parse s e) = initializationAttempts s + 1)
   \<and> (initializationAttempts (step parse s e) < initializationAttempts s \<longrightarrow>
        announces_ready e \<and> initializationAttempts (step parse s e) = 0
        \<and> isVannaReady (step parse s e))
   \<and> (maxAttempts \<le> initializationAttempts s \<longrightarrow>
        startPython files s = s
        \<and> timers (proc_exit pid code signal s) = remove1 (InitTimer pid) (timers s))
   \<and> (maxAttempts \<le> initializationAttempts s \<and> (\<forall>e \<in> set es. \<not> announces_ready e) \<longrightarrow>
        spawned (foldl (step parse) s es) = spawned s
        \<and> initializationAttempts (foldl (step parse) s es) = initializationAttempts s)"
proof -
  have a: "maxAttempts \<le> initializationAttempts s \<longrightarrow>
        startPython files s = s
        \<and> timers (proc_exit pid code signal s) = remove1 (InitTimer pid) (timers s)"
    by (simp add: startPython_def proc_exit_def purge_eq clearTimeout_def)
  show ?thesis
    using step_launch [of parse s e] no_launch_at_maximum [of s es parse] a
    by auto
qed

lemma three_launches_eq:
  "run Map.empty True three_launches = constructor_state\<lparr>initializationAttempts := 3,
     pythonProcess := Some 2, spawned := 3, timers := [InitTimer 2]\<rparr>"
  by (simp add: three_launches_def run_defs proc_exit_def purge_eq Let_def fun_eq_iff)

theorem attempts_gate_witness:
  "initializationAttempts (run Map.empty True three_launches) = 3
   \<and> announces_ready (StderrData 2 (bytes_of ''ready''))
   \<and> initializationAttempts
        (step Map.empty (run Map.empty True three_launches) (StderrData 2 (bytes_of ''ready''))) = 0
   \<and> startPython True (run Map.empty True three_launches) = run Map.empty True three_launches
   \<and> timers (proc_exit 2 (Some 1) None (run Map.empty True three_launches)) = []
   \<and> spawned (foldl (step Map.empty) (run Map.empty True three_launches)
        [ProcError 2, FireRelaunch True, ProcExit 2 (Some 1) None]) = 3"
proof -
  have h: "initializationAttempts (run Map.empty True three_launches) = 3
      \<and> spawned (run Map.empty True three_launches) = 3
      \<and> timers (run Map.empty True three_launches) = [InitTimer 2]
      \<and> initializationAttempts
        (step Map.empty (run Map.empty True three_launches) (StderrData 2 (bytes_of ''ready''))) = 0"
    by (simp add: three_launches_eq constructor_state_def step_def stderr_data_def
        toString_def bytes_of_def text_of_def clearTimeout_def)
  have q: "\<forall>e \<in> set [ProcError 2, FireRelaunch True, ProcExit 2 (Some 1) None]. \<not> announces_ready e"
    by (simp add: announces_ready_def)
  show ?thesis
    using h q attempts_gate [of Map.empty "run Map.empty True three_launches"
        "StderrData 2 (bytes_of ''ready'')" True 2 "Some 1" None
        "[ProcError 2, FireRelaunch True, ProcExit 2 (Some 1) None]"]
    by (simp add: maxAttempts_def)
qed

subsection \<open>The line framer\<close>

text \<open>
  Claim C9 does not hold of the code for every byte stream: the handler decodes each
  chunk by itself with \<^verbatim>\<open>data.toString()\<close>, so a chunk boundary inside a
  multi-byte UTF-8 character turns the two halves into U+FFFD each. The bytes
  \<open>C3 A9 0A\<close> give the line \<open>[0xE9]\<close> when they arrive in one
  chunk and the line \<open>[0xFFFD, 0xFFFD]\<close> when the first chunk ends after \<open>C3\<close>,
  the buffer holding \<open>[0xFFFD]\<close> in between.
\<close>

theorem split_character_changes_line:
  "concat [[0xC3], [0xA9, 0x0A]] = concat [[0xC3, 0xA9, 0x0A :: byte]]
   \<and> frames [] [[0xC3, 0xA9, 0x0A]] = ([[0xE9]], [])
   \<and> frames [] [[0xC3], [0xA9, 0x0A]] = ([[0xFFFD, 0xFFFD]], [])
   \<and> buffers (step Map.empty ready (StdoutData 0 [0xC3])) 0 = [0xFFFD]"
  by (simp add: frame_def toString_def pop_def ready_eq constructor_state_def step_def
      stdout_data_def)

text \<open>
  What the framer does guarantee: starting from a buffer without a line feed, the lines
  it produces over any sequence of chunks are the complete lines of the concatenated
  decoded chunks, and the buffer is the fragment after the last line feed. The result is
  therefore independent of the chunking whenever decoding is, as for ASCII output.
\<close>

lemma split_nl_ne: "split_nl xs \<noteq> []"
  by (induction xs) (auto split: list.splits)

lemma split_nl_append:
  "split_nl (xs @ ys) = butlast (split_nl xs) @ split_nl (last (split_nl xs) @ ys)"
proof (induction xs)
  case Nil
  show ?case by simp
next
  case (Cons c xs)
  show ?case
  proof (cases "c = 10")
    case True
    with Cons show ?thesis by (simp add: split_nl_ne)
  next
    case False
    obtain l ls where s: "split_nl xs = l # ls" using split_nl_ne [of xs] by (cases "split_nl xs") auto
    show ?thesis
    proof (cases ls)
      case Nil
      with False s Cons show ?thesis by simp
    next
      case (Cons l' ls')
      with False s Cons.IH show ?thesis by simp
    qed
  qed
qed

lemma frame_eq:
  "frame buffer data = (butlast (split_nl (buffer @ toString data)), last (split_nl (buffer @ toString data)))"
  by (simp add: frame_def pop_def split_nl_ne)

lemma split_nl_free: "10 \<notin> set xs \<Longrightarrow> split_nl xs = [xs]"
  by (induction xs) auto

lemma split_nl_no_nl: "l \<in> set (split_nl xs) \<Longrightarrow> 10 \<notin> set l"
  by (induction xs arbitrary: l) (auto split: list.splits if_splits)

lemma last_split_nl_free: "10 \<notin> set (last (split_nl xs))"
  using split_nl_no_nl [of "last (split_nl xs)" xs] split_nl_ne [of xs] by simp

lemma frames_decoded:
  "10 \<notin> set buffer \<Longrightarrow>
   frames buffer ds =
     (butlast (split_nl (buffer @ concat (map toString ds))),
      last (split_nl (buffer @ concat (map toString ds))))"
proof (induction ds arbitrary: buffer)
  case Nil
  then show ?case by (simp add: split_nl_free)
next
  case (Cons d ds)
  let ?X = "buffer @ toString d" and ?T = "concat (map toString ds)"
  have "frames (last (split_nl ?X)) ds =
     (butlast (split_nl (last (split_nl ?X) @ ?T)), last (split_nl (last (split_nl ?X) @ ?T)))"
    by (rule Cons.IH) (rule last_split_nl_free)
  moreover have "split_nl (?X @ ?T) = butlast (split_nl ?X) @ split_nl (last (split_nl ?X) @ ?T)"
    by (rule split_nl_append)
  ultimately show ?case
    by (simp add: frame_eq butlast_append split_nl_ne)
qed

lemma utf8_ascii: "\<forall>b \<in> set d. b < 0x80 \<Longrightarrow> utf8 0 cp lo hi d = map unat d"
proof (induction d arbitrary: cp lo hi)
  case Nil
  show ?case by simp
next
  case (Cons b d)
  then have "b < 0x80" by simp
  then have "unat b \<le> 0x7F" by (simp add: word_less_nat_alt)
  with Cons show ?case by simp
qed

lemma toString_ascii: "\<forall>b \<in> set d. b < 0x80 \<Longrightarrow> toString d = map unat d"
  by (simp add: toString_def utf8_ascii)

lemma frames_ascii:
  assumes "10 \<notin> set buffer" "\<forall>d \<in> set ds. \<forall>b \<in> set d. b < 0x80"
  shows "frames buffer ds = frames buffer [concat ds]"
proof -
  have "\<forall>b \<in> set (concat ds). b < 0x80" using assms(2) by auto
  then have "toString (concat ds) = map unat (concat ds)" by (rule toString_ascii)
  moreover have "concat (map toString ds) = map unat (concat ds)"
    using assms(2) by (induction ds) (simp_all add: toString_ascii)
  ultimately have "concat (map toString ds) = toString (concat ds)" by simp
  with assms(1) show ?thesis by (simp add: frames_decoded frame_eq)
qed

end
